theory Spec2Isabelle
  imports Main
begin

section \<open>Python strings\<close>

text \<open>
  Python \<^verbatim>\<open>str\<close> values are modelled as \<^typ>\<open>string\<close>; one \<^typ>\<open>char\<close> stands for one
  code point (the model is restricted to code points below 256).  The helpers below are
  the string methods the controller and the route use.
\<close>

definition nl :: string where
  "nl = [CHR 0x0A]"

text \<open>\<^verbatim>\<open>str.lower()\<close>, per code point.\<close>

definition lower_char :: "char \<Rightarrow> char" where
  "lower_char c =
     (let n = (of_char c :: nat)
      in if (65 \<le> n \<and> n \<le> 90) \<or> (192 \<le> n \<and> n \<le> 222 \<and> n \<noteq> 215)
         then char_of (n + 32) else c)"

definition lower :: "string \<Rightarrow> string" where
  "lower s = map lower_char s"

definition startswith :: "string \<Rightarrow> string \<Rightarrow> bool" where
  "startswith s sub = (take (length sub) s = sub)"

text \<open>\<^verbatim>\<open>sub in s\<close>.\<close>

fun contains :: "string \<Rightarrow> string \<Rightarrow> bool" where
  "contains sub [] = (sub = [])"
| "contains sub (c # cs) = (startswith (c # cs) sub \<or> contains sub cs)"

text \<open>\<^verbatim>\<open>str.isspace()\<close> of a single code point below 256, and \<^verbatim>\<open>str.strip()\<close>.\<close>

definition is_space :: "char \<Rightarrow> bool" where
  "is_space c =
     (let n = (of_char c :: nat)
      in (9 \<le> n \<and> n \<le> 13) \<or> (28 \<le> n \<and> n \<le> 32) \<or> n = 133 \<or> n = 160)"

definition strip :: "string \<Rightarrow> string" where
  "strip s = rev (dropWhile is_space (rev (dropWhile is_space s)))"

text \<open>\<^verbatim>\<open>str.find(c)\<close> and \<^verbatim>\<open>str.rfind(c)\<close> for a one-character needle: \<open>-1\<close> when absent.\<close>

primrec find_idx :: "char \<Rightarrow> string \<Rightarrow> nat option" where
  "find_idx c [] = None"
| "find_idx c (x # xs) = (if x = c then Some 0 else map_option Suc (find_idx c xs))"

primrec rfind_idx :: "char \<Rightarrow> string \<Rightarrow> nat option" where
  "rfind_idx c [] = None"
| "rfind_idx c (x # xs) =
     (case rfind_idx c xs of
        Some i \<Rightarrow> Some (Suc i)
      | None \<Rightarrow> if x = c then Some 0 else None)"

definition find_str :: "string \<Rightarrow> char \<Rightarrow> int" where
  "find_str s c = (case find_idx c s of None \<Rightarrow> - 1 | Some i \<Rightarrow> int i)"

definition rfind_str :: "string \<Rightarrow> char \<Rightarrow> int" where
  "rfind_str s c = (case rfind_idx c s of None \<Rightarrow> - 1 | Some i \<Rightarrow> int i)"

text \<open>\<^verbatim>\<open>s[i:j]\<close> for \<open>0 \<le> i\<close> and \<open>0 \<le> j\<close>, the only way the controller slices.\<close>

definition slice :: "string \<Rightarrow> int \<Rightarrow> int \<Rightarrow> string" where
  "slice s i j = drop (nat i) (take (nat j) s)"

text \<open>\<^verbatim>\<open>sep.join(xs)\<close> and \<^verbatim>\<open>s.split(c)\<close>.\<close>

fun join :: "string \<Rightarrow> string list \<Rightarrow> string" where
  "join sep [] = []"
| "join sep [x] = x"
| "join sep (x # y # ys) = x @ sep @ join sep (y # ys)"

fun split_str :: "string \<Rightarrow> char \<Rightarrow> string list" where
  "split_str [] c = [[]]"
| "split_str (x # xs) c =
     (if x = c then [] # split_str xs c
      else (case split_str xs c of [] \<Rightarrow> [[x]] | w # ws \<Rightarrow> (x # w) # ws))"

text \<open>\<^verbatim>\<open>str(n)\<close> for a natural number: its decimal digits.\<close>

fun str_nat :: "nat \<Rightarrow> string" where
  "str_nat n =
     (if n < 10 then [char_of (48 + n)]
      else str_nat (n div 10) @ [char_of (48 + n mod 10)])"

declare str_nat.simps [simp del]

section \<open>Uploaded files, HTTP errors and the observable effects\<close>

text \<open>
  A FastAPI \<^verbatim>\<open>UploadFile\<close>: the declared MIME type, the bytes, and the read cursor of the
  underlying file.  \<^verbatim>\<open>read()\<close> returns everything from the cursor on and leaves the cursor
  at the end; \<^verbatim>\<open>seek(0)\<close> rewinds.
\<close>

record upload_file =
  content_type :: string
  data :: string
  pos :: nat

record http_exception =
  status_code :: nat
  detail :: string

text \<open>The variables handed to the prompt template (its fixed wording is not modelled).\<close>

record prompt =
  p_subject :: string
  p_num_questions :: int
  p_difficulty :: string
  p_question_types :: string
  p_content :: string

datatype event =
    EvRead nat
  | EvOcr nat nat string
  | EvSeek nat nat
  | EvSleep nat
  | EvPrint string
  | EvLlm prompt

record world =
  files :: "upload_file list"
  trace :: "event list"

definition emit :: "event \<Rightarrow> world \<Rightarrow> world" where
  "emit e w = w\<lparr>trace := trace w @ [e]\<rparr>"

definition read_image :: "nat \<Rightarrow> world \<Rightarrow> string \<times> world" where
  "read_image idx w =
     (let f = files w ! idx
      in (drop (pos f) (data f),
          emit (EvRead idx)
            (w\<lparr>files := (files w)[idx := f\<lparr>pos := max (pos f) (length (data f))\<rparr>]\<rparr>)))"

definition seek_image :: "nat \<Rightarrow> nat \<Rightarrow> world \<Rightarrow> world" where
  "seek_image idx off w =
     emit (EvSeek idx off) (w\<lparr>files := (files w)[idx := (files w ! idx)\<lparr>pos := off\<rparr>]\<rparr>)"

section \<open>JSON values and Python exceptions\<close>

datatype json =
    JNull
  | JBool bool
  | JNumber string
  | JString string
  | JArray "json list"
  | JObject "(string \<times> json) list"

text \<open>
  Why \<^verbatim>\<open>Question(**q)\<close> can fail: \<open>q\<close> is not a mapping (a \<^verbatim>\<open>TypeError\<close>), or the model
  validation rejects it because a required field is missing or a field has the wrong type.
\<close>

datatype field_error = Missing string | WrongType string

datatype py_exception =
    HTTPExc http_exception
  | NotAMapping json
  | NotIterable json
  | ValidationErr "field_error list"

text \<open>
  What \<^verbatim>\<open>json.loads\<close> can raise, each with its \<^verbatim>\<open>str()\<close>: a \<^verbatim>\<open>JSONDecodeError\<close> for
  text that is not JSON, or another exception (a \<^verbatim>\<open>RecursionError\<close> on deep nesting, a
  plain \<^verbatim>\<open>ValueError\<close> on an integer with too many digits).
\<close>

datatype raised = JSONDecodeError string | OtherException string

text \<open>
  The external capabilities.  \<open>ocr idx attempt bytes\<close> stands for everything the
  \<^verbatim>\<open>try\<close> block of the extractor does with the bytes it has read for image \<open>idx\<close> at the
  given attempt: decoding, colour conversion, resizing and the vision call; \<open>Inl msg\<close> is an
  exception whose \<^verbatim>\<open>str()\<close> is \<open>msg\<close>, \<open>Inr text\<close> is \<^verbatim>\<open>response.text\<close>.  \<open>llm_invoke\<close> is
  the construction of the chat model, the prompt formatting and \<^verbatim>\<open>llm.invoke\<close>;
  \<open>json_loads\<close> is \<^verbatim>\<open>json.loads\<close>; \<open>exc_str\<close> is
  \<^verbatim>\<open>str()\<close> on the exception objects of the libraries.
\<close>

record caps =
  ocr :: "nat \<Rightarrow> nat \<Rightarrow> string \<Rightarrow> string + string"
  llm_invoke :: "prompt \<Rightarrow> string + string"
  json_loads :: "string \<Rightarrow> raised + json"
  exc_str :: "py_exception \<Rightarrow> string"

section \<open>The OCR extractor\<close>

definition max_retries :: nat where
  "max_retries = 3"

definition retry_delay :: nat where
  "retry_delay = 2"

definition is_transient :: "string \<Rightarrow> bool" where
  "is_transient error_msg = (contains ''timeout'' (lower error_msg) \<or> contains ''504'' error_msg)"

definition image_entry :: "nat \<Rightarrow> string \<Rightarrow> string" where
  "image_entry idx extracted_text =
     ''--- Image '' @ str_nat (idx + 1) @ '' ---'' @ nl @ extracted_text @ nl"

definition extraction_error :: "nat \<Rightarrow> string \<Rightarrow> http_exception" where
  "extraction_error idx error_msg =
     \<lparr>status_code = 500,
      detail = ''Error extracting text from image '' @ str_nat (idx + 1) @ '' after ''
        @ str_nat max_retries @ '' attempts: '' @ error_msg\<rparr>"

text \<open>
  The loop \<^verbatim>\<open>for attempt in range(max_retries)\<close> for image \<open>idx\<close>: the list is the attempts
  still to run.  \<^verbatim>\<open>break\<close> and the exhausted range both leave the loop normally,
  \<^verbatim>\<open>continue\<close> goes on with the rest of the range, \<^verbatim>\<open>raise\<close> is \<open>Inl\<close>.
\<close>

fun retry_loop ::
  "caps \<Rightarrow> nat \<Rightarrow> nat list \<Rightarrow> string list \<Rightarrow> world \<Rightarrow> (http_exception + string list) \<times> world"
where
  "retry_loop cp idx [] all_extracted_text w = (Inr all_extracted_text, w)"
| "retry_loop cp idx (attempt # rest) all_extracted_text w =
     (let (image_content, w1) = read_image idx w;
          w2 = emit (EvOcr idx attempt image_content) w1
      in case ocr cp idx attempt image_content of
           Inr extracted_text \<Rightarrow>
             (Inr (all_extracted_text @ [image_entry idx extracted_text]), seek_image idx 0 w2)
         | Inl error_msg \<Rightarrow>
             if is_transient error_msg \<and> attempt < max_retries - 1
             then retry_loop cp idx rest all_extracted_text
                    (seek_image idx 0
                      (emit (EvSleep retry_delay)
                        (emit (EvPrint (''Attempt '' @ str_nat (attempt + 1) @ '' failed for image ''
                           @ str_nat (idx + 1) @ '', retrying in '' @ str_nat retry_delay @ ''s...'')) w2)))
             else (Inl (extraction_error idx error_msg), w2))"

text \<open>The loop \<^verbatim>\<open>for idx, image_file in enumerate(images)\<close>.\<close>

fun image_loop ::
  "caps \<Rightarrow> nat list \<Rightarrow> string list \<Rightarrow> world \<Rightarrow> (http_exception + string list) \<times> world"
where
  "image_loop cp [] all_extracted_text w = (Inr all_extracted_text, w)"
| "image_loop cp (idx # rest) all_extracted_text w =
     (case retry_loop cp idx [0..<max_retries] all_extracted_text w of
        (Inl e, w') \<Rightarrow> (Inl e, w')
      | (Inr all_extracted_text', w') \<Rightarrow> image_loop cp rest all_extracted_text' w')"

definition extract_text_from_images :: "caps \<Rightarrow> world \<Rightarrow> (http_exception + string) \<times> world" where
  "extract_text_from_images cp w =
     (case image_loop cp [0..<length (files w)] [] w of
        (Inl e, w') \<Rightarrow> (Inl e, w')
      | (Inr all_extracted_text, w') \<Rightarrow> (Inr (join nl all_extracted_text), w'))"

section \<open>The question schema\<close>

record Question =
  question :: string
  question_type :: string
  options :: "string list option"
  correct_answer :: "string option"
  q_difficulty :: string
  q_subject :: string

record QuestionGenerationResponse =
  success :: bool
  r_subject :: string
  total_questions :: int
  questions :: "Question list"
  extracted_text_preview :: "string option"

text \<open>
  Field validation of the model class \<^verbatim>\<open>Question\<close> on the items of a dictionary that
  \<^verbatim>\<open>json.loads\<close> produced (the keys of a \<open>JObject\<close> are distinct, as those of a
  \<^verbatim>\<open>dict\<close>): a \<^verbatim>\<open>str\<close> field takes a JSON string only, an \<^verbatim>\<open>Optional\<close> field also takes
  \<^verbatim>\<open>null\<close> and defaults to \<^verbatim>\<open>None\<close> when its key is absent, keys that are no field are
  ignored.
\<close>

definition req_str :: "string \<Rightarrow> (string \<times> json) list \<Rightarrow> field_error + string" where
  "req_str k kvs =
     (case map_of kvs k of
        None \<Rightarrow> Inl (Missing k)
      | Some (JString s) \<Rightarrow> Inr s
      | Some _ \<Rightarrow> Inl (WrongType k))"

definition opt_str :: "string \<Rightarrow> (string \<times> json) list \<Rightarrow> field_error + string option" where
  "opt_str k kvs =
     (case map_of kvs k of
        None \<Rightarrow> Inr None
      | Some JNull \<Rightarrow> Inr None
      | Some (JString s) \<Rightarrow> Inr (Some s)
      | Some _ \<Rightarrow> Inl (WrongType k))"

fun str_items :: "json list \<Rightarrow> string list option" where
  "str_items [] = Some []"
| "str_items (JString s # js) = map_option ((#) s) (str_items js)"
| "str_items (_ # js) = None"

definition opt_str_list :: "string \<Rightarrow> (string \<times> json) list \<Rightarrow> field_error + string list option" where
  "opt_str_list k kvs =
     (case map_of kvs k of
        None \<Rightarrow> Inr None
      | Some JNull \<Rightarrow> Inr None
      | Some (JArray js) \<Rightarrow>
          (case str_items js of None \<Rightarrow> Inl (WrongType k) | Some xs \<Rightarrow> Inr (Some xs))
      | Some _ \<Rightarrow> Inl (WrongType k))"

definition errs :: "field_error + 'a \<Rightarrow> field_error list" where
  "errs r = (case r of Inl e \<Rightarrow> [e] | Inr _ \<Rightarrow> [])"

text \<open>\<^verbatim>\<open>Question(**q)\<close>: every field is validated and all the errors are reported together.\<close>

definition mk_Question :: "json \<Rightarrow> py_exception + Question" where
  "mk_Question q =
     (case q of
        JObject kvs \<Rightarrow>
          (case (req_str ''question'' kvs, req_str ''question_type'' kvs,
                 opt_str_list ''options'' kvs, opt_str ''correct_answer'' kvs,
                 req_str ''difficulty'' kvs, req_str ''subject'' kvs) of
             (Inr a, Inr b, Inr c, Inr d, Inr e, Inr f) \<Rightarrow>
               Inr \<lparr>question = a, question_type = b, options = c, correct_answer = d,
                    q_difficulty = e, q_subject = f\<rparr>
           | (a, b, c, d, e, f) \<Rightarrow>
               Inl (ValidationErr (errs a @ errs b @ errs c @ errs d @ errs e @ errs f)))
      | _ \<Rightarrow> Inl (NotAMapping q))"

text \<open>What \<^verbatim>\<open>for q in questions_data\<close> runs over, for each kind of value.\<close>

definition iterate :: "json \<Rightarrow> py_exception + json list" where
  "iterate v =
     (case v of
        JArray js \<Rightarrow> Inr js
      | JObject kvs \<Rightarrow> Inr (map (\<lambda>kv. JString (fst kv)) kvs)
      | JString s \<Rightarrow> Inr (map (\<lambda>c. JString [c]) s)
      | _ \<Rightarrow> Inl (NotIterable v))"

text \<open>The comprehension \<^verbatim>\<open>[Question(**q) for q in questions_data]\<close>: the first exception ends it.\<close>

fun mk_Questions :: "json list \<Rightarrow> py_exception + Question list" where
  "mk_Questions [] = Inr []"
| "mk_Questions (q # qs) =
     (case mk_Question q of
        Inl e \<Rightarrow> Inl e
      | Inr x \<Rightarrow> (case mk_Questions qs of Inl e \<Rightarrow> Inl e | Inr xs \<Rightarrow> Inr (x # xs)))"

section \<open>The question generator\<close>

text \<open>The handler \<^verbatim>\<open>except Exception as e\<close>, given \<^verbatim>\<open>str(e)\<close>.\<close>

definition generation_error :: "string \<Rightarrow> http_exception" where
  "generation_error msg = \<lparr>status_code = 500, detail = ''Error generating questions: '' @ msg\<rparr>"

text \<open>The handler \<^verbatim>\<open>except json.JSONDecodeError as e\<close>, given \<^verbatim>\<open>str(e)\<close> and the stripped output.\<close>

definition parse_error :: "string \<Rightarrow> string \<Rightarrow> http_exception" where
  "parse_error msg response_text =
     \<lparr>status_code = 500,
      detail = ''Failed to parse generated questions: '' @ msg @ ''. Response was: ''
        @ take 300 response_text\<rparr>"

definition empty_response :: http_exception where
  "empty_response = \<lparr>status_code = 500, detail = ''LLM returned an empty response''\<rparr>"

definition no_json_array :: "string \<Rightarrow> http_exception" where
  "no_json_array response_text =
     \<lparr>status_code = 500,
      detail = ''Could not find JSON array in response. Response preview: '' @ take 200 response_text\<rparr>"

definition default_question_types :: "string list" where
  "default_question_types = [''multiple_choice'', ''short_answer'', ''true_false'']"

text \<open>
  \<^verbatim>\<open>prompt_template.format_messages(...)\<close>: the types are joined with a comma and a
  blank, the content is cut to its first 8000 characters.
\<close>

definition format_messages :: "string \<Rightarrow> int \<Rightarrow> string \<Rightarrow> string list \<Rightarrow> string \<Rightarrow> prompt" where
  "format_messages subject num_questions difficulty question_types content =
     \<lparr>p_subject = subject, p_num_questions = num_questions, p_difficulty = difficulty,
      p_question_types = join '', '' question_types, p_content = take 8000 content\<rparr>"

text \<open>
  The exceptions raised inside the \<^verbatim>\<open>try\<close> block are \<^verbatim>\<open>HTTPException\<close>s too, and
  \<^verbatim>\<open>HTTPException\<close> is an \<^verbatim>\<open>Exception\<close>: the last handler catches them and wraps
  their \<^verbatim>\<open>str()\<close>.  A failure of the generation capability is taken to be no
  \<^verbatim>\<open>JSONDecodeError\<close>.
\<close>

definition generate_questions_from_content ::
  "caps \<Rightarrow> string \<Rightarrow> string \<Rightarrow> int \<Rightarrow> string \<Rightarrow> string list option \<Rightarrow> world
     \<Rightarrow> (http_exception + QuestionGenerationResponse) \<times> world"
where
  "generate_questions_from_content cp content subject num_questions difficulty question_types w =
     (let messages = format_messages subject num_questions difficulty
                       (case question_types of None \<Rightarrow> default_question_types | Some ts \<Rightarrow> ts)
                       content;
          w1 = emit (EvLlm messages) w
      in case llm_invoke cp messages of
           Inl msg \<Rightarrow> (Inl (generation_error msg), w1)
         | Inr response_content \<Rightarrow>
             (let response_text = strip response_content;
                  w2 = emit (EvPrint (''LLM Response: '' @ take 500 response_text @ ''...'')) w1
              in if response_text = []
                 then (Inl (generation_error (exc_str cp (HTTPExc empty_response))), w2)
                 else
                   (let start_idx = find_str response_text (CHR ''['');
                        end_idx = rfind_str response_text (CHR '']'') + 1
                    in if start_idx \<noteq> - 1 \<and> end_idx \<noteq> 0
                       then
                         (case json_loads cp (slice response_text start_idx end_idx) of
                            Inl (JSONDecodeError msg) \<Rightarrow>
                              (Inl (parse_error msg response_text), w2)
                          | Inl (OtherException msg) \<Rightarrow> (Inl (generation_error msg), w2)
                          | Inr questions_data \<Rightarrow>
                              (case iterate questions_data of
                                 Inl e \<Rightarrow> (Inl (generation_error (exc_str cp e)), w2)
                               | Inr items \<Rightarrow>
                                   (case mk_Questions items of
                                      Inl e \<Rightarrow> (Inl (generation_error (exc_str cp e)), w2)
                                    | Inr qs \<Rightarrow>
                                        (Inr \<lparr>success = True, r_subject = subject,
                                              total_questions = int (length qs), questions = qs,
                                              extracted_text_preview =
                                                Some (if length content > 500
                                                      then take 500 content @ ''...''
                                                      else content)\<rparr>, w2))))
                       else (Inl (generation_error
                                    (exc_str cp (HTTPExc (no_json_array response_text)))), w2))))"

section \<open>The pipeline and its route\<close>

definition valid_image_types :: "string list" where
  "valid_image_types = [''image/jpeg'', ''image/jpg'', ''image/png'', ''image/webp'']"

definition process_images_and_generate_questions ::
  "caps \<Rightarrow> string \<Rightarrow> int \<Rightarrow> string \<Rightarrow> string list option \<Rightarrow> world
     \<Rightarrow> (http_exception + QuestionGenerationResponse) \<times> world"
where
  "process_images_and_generate_questions cp subject num_questions difficulty question_types w =
     (if length (files w) < 1
      then (Inl \<lparr>status_code = 400, detail = ''At least one image is required''\<rparr>, w)
      else
        (case List.find (\<lambda>img. content_type img \<notin> set valid_image_types) (files w) of
           Some img \<Rightarrow>
             (Inl \<lparr>status_code = 400,
                   detail = ''Invalid file type: '' @ content_type img
                     @ ''. Allowed types: jpeg, jpg, png, webp''\<rparr>, w)
         | None \<Rightarrow>
             (case extract_text_from_images cp w of
                (Inl e, w1) \<Rightarrow> (Inl e, w1)
              | (Inr extracted_content, w1) \<Rightarrow>
                  if strip extracted_content = []
                  then (Inl \<lparr>status_code = 400,
                             detail = ''No text could be extracted from the images''\<rparr>, w1)
                  else generate_questions_from_content cp extracted_content subject
                         num_questions difficulty question_types w1)))"

definition valid_types :: "string list" where
  "valid_types = [''multiple_choice'', ''short_answer'', ''true_false'']"

definition valid_difficulties :: "string list" where
  "valid_difficulties = [''easy'', ''medium'', ''hard'']"

text \<open>
  The route \<^verbatim>\<open>POST /api/v1/generate-questions\<close>.  A form field that the request omits is
  \<open>None\<close> and takes the default its \<^verbatim>\<open>Form(...)\<close> declares; the uploaded images are the
  files of the world.  Every exception the model knows is an \<^verbatim>\<open>HTTPException\<close>, which
  the route re-raises unchanged.
\<close>

definition generate_questions ::
  "caps \<Rightarrow> string \<Rightarrow> int option \<Rightarrow> string option \<Rightarrow> string option \<Rightarrow> world
     \<Rightarrow> (http_exception + QuestionGenerationResponse) \<times> world"
where
  "generate_questions cp subject num_questions_field difficulty_field question_types_field w =
     (let num_questions = (case num_questions_field of None \<Rightarrow> 10 | Some n \<Rightarrow> n);
          difficulty = (case difficulty_field of None \<Rightarrow> ''medium'' | Some d \<Rightarrow> d);
          question_types = (case question_types_field of
                              None \<Rightarrow> ''multiple_choice,short_answer,true_false''
                            | Some s \<Rightarrow> s)
      in if length (files w) < 2
         then (Inl \<lparr>status_code = 400,
                    detail = ''At least 2 images are required. You provided ''
                      @ str_nat (length (files w)) @ '' image(s).''\<rparr>, w)
         else
           (let types_list = (if question_types \<noteq> []
                              then Some (map strip (split_str question_types (CHR '','')))
                              else None)
            in case (case types_list of
                       None \<Rightarrow> None
                     | Some ts \<Rightarrow> List.find (\<lambda>qt. qt \<notin> set valid_types) ts) of
                 Some qt \<Rightarrow>
                   (Inl \<lparr>status_code = 400,
                         detail = ''Invalid question type: '' @ qt @ ''. Valid types: ''
                           @ join '', '' valid_types\<rparr>, w)
               | None \<Rightarrow>
                   if difficulty \<notin> set valid_difficulties
                   then (Inl \<lparr>status_code = 400,
                              detail = ''Invalid difficulty: '' @ difficulty @ ''. Valid values: ''
                                @ join '', '' valid_difficulties\<rparr>, w)
                   else process_images_and_generate_questions cp subject num_questions
                          difficulty types_list w))"

section \<open>Notions used in the statements\<close>

text \<open>
  Image \<open>idx\<close>, read as the bytes \<open>b\<close>, is extracted at attempt \<open>a\<close> with text \<open>t\<close>: the
  attempt lies within the retry budget and every earlier attempt failed with a transient
  error.
\<close>

definition succeeds_at :: "(nat \<Rightarrow> nat \<Rightarrow> string \<Rightarrow> string + string) \<Rightarrow> nat \<Rightarrow> string \<Rightarrow> nat \<Rightarrow> string \<Rightarrow> bool" where
  "succeeds_at f idx b a t =
     (a < max_retries \<and> f idx a b = Inr t \<and>
      (\<forall>a' < a. \<exists>m. f idx a' b = Inl m \<and> is_transient m))"

text \<open>The effects of one successful attempt, of one attempt that is retried, and a world
  that has logged further effects.\<close>

definition success_events :: "nat \<Rightarrow> nat \<Rightarrow> string \<Rightarrow> event list" where
  "success_events idx attempt b = [EvRead idx, EvOcr idx attempt b, EvSeek idx 0]"

definition retry_events :: "nat \<Rightarrow> nat \<Rightarrow> string \<Rightarrow> event list" where
  "retry_events idx attempt b =
     [EvRead idx, EvOcr idx attempt b,
      EvPrint (''Attempt '' @ str_nat (attempt + 1) @ '' failed for image ''
                 @ str_nat (idx + 1) @ '', retrying in '' @ str_nat retry_delay @ ''s...''),
      EvSleep retry_delay, EvSeek idx 0]"

definition logged :: "event list \<Rightarrow> world \<Rightarrow> world" where
  "logged tr w = w\<lparr>trace := trace w @ tr\<rparr>"

text \<open>The fields of \<^verbatim>\<open>Question\<close> that have no default.\<close>

definition required_fields :: "string list" where
  "required_fields = [''question'', ''question_type'', ''difficulty'', ''subject'']"

section \<open>A concrete batch\<close>

text \<open>
  Two uploads as the framework hands them over, a vision capability that times out twice on
  the first image before it answers, and one that answers at once.
\<close>

definition example_world :: world where
  "example_world =
     \<lparr>files = [\<lparr>content_type = ''image/png'', data = ''ab'', pos = 0\<rparr>,
               \<lparr>content_type = ''image/jpeg'', data = ''xy'', pos = 0\<rparr>],
      trace = []\<rparr>"

definition flaky_ocr :: "nat \<Rightarrow> nat \<Rightarrow> string \<Rightarrow> string + string" where
  "flaky_ocr idx attempt b =
     (if idx = 0
      then (if attempt = 0 then Inl ''Request Timeout''
            else if attempt = 1 then Inl ''504 Deadline Exceeded''
            else Inr ''alpha'')
      else Inr ''beta'')"

definition steady_ocr :: "nat \<Rightarrow> nat \<Rightarrow> string \<Rightarrow> string + string" where
  "steady_ocr idx attempt b = (if idx = 0 then Inr ''alpha'' else Inr ''beta'')"

definition example_texts :: "nat \<Rightarrow> string" where
  "example_texts idx = (if idx = 0 then ''alpha'' else ''beta'')"

definition example_exc_str :: "py_exception \<Rightarrow> string" where
  "example_exc_str e =
     (case e of
        HTTPExc h \<Rightarrow> str_nat (status_code h) @ '': '' @ detail h
      | NotAMapping _ \<Rightarrow> ''argument after ** must be a mapping''
      | NotIterable _ \<Rightarrow> ''object is not iterable''
      | ValidationErr es \<Rightarrow> str_nat (length es) @ '' validation errors for Question'')"

definition broken_ocr :: "nat \<Rightarrow> nat \<Rightarrow> string \<Rightarrow> string + string" where
  "broken_ocr idx attempt b = Inl ''API key not valid''"

text \<open>
  Model outputs, and what \<^verbatim>\<open>json.loads\<close> makes of the arrays cut out of them: the output
  of the specification's test, an array whose second object lacks its subject, and a
  short-answer question that carries options.
\<close>

definition single_body :: string where
  \<open>single_body = ''{"question":"Q","question_type":"short_answer","correct_answer":"A","difficulty":"easy","subject":"Math"}''\<close>

definition single_array :: string where
  "single_array = ''['' @ single_body @ '']''"

definition single_output :: string where
  "single_output = ''noise'' @ single_array @ ''trailing''"

definition single_object :: json where
  "single_object =
     JObject [(''question'', JString ''Q''), (''question_type'', JString ''short_answer''),
              (''correct_answer'', JString ''A''), (''difficulty'', JString ''easy''),
              (''subject'', JString ''Math'')]"

definition partial_body :: string where
  \<open>partial_body = ''{"question":"Q","question_type":"short_answer","correct_answer":"A","difficulty":"easy","subject":"Math"},{"question":"R","question_type":"true_false","difficulty":"easy"}''\<close>

definition partial_output :: string where
  "partial_output = ''['' @ partial_body @ '']''"

definition partial_object :: json where
  "partial_object =
     JObject [(''question'', JString ''R''), (''question_type'', JString ''true_false''),
              (''difficulty'', JString ''easy'')]"

definition optioned_body :: string where
  \<open>optioned_body = ''{"question":"Q","question_type":"short_answer","options":["A. yes","B. no"],"difficulty":"easy","subject":"Math"}''\<close>

definition optioned_output :: string where
  "optioned_output = ''['' @ optioned_body @ '']''"

definition optioned_object :: json where
  "optioned_object =
     JObject [(''question'', JString ''Q''), (''question_type'', JString ''short_answer''),
              (''options'', JArray [JString ''A. yes'', JString ''B. no'']),
              (''difficulty'', JString ''easy''), (''subject'', JString ''Math'')]"


definition deep_output :: string where
  "deep_output = replicate 2000 (CHR ''['') @ replicate 2000 (CHR '']'')"

definition example_json_loads :: "string \<Rightarrow> raised + json" where
  "example_json_loads s =
     (if s = [] then Inl (JSONDecodeError ''Expecting value: line 1 column 1 (char 0)'')
      else if s = ''[]'' then Inr (JArray [])
      else if s = single_array then Inr (JArray [single_object])
      else if s = partial_output then Inr (JArray [single_object, partial_object])
      else if s = optioned_output then Inr (JArray [optioned_object])
      else if s = deep_output
      then Inl (OtherException
             ''maximum recursion depth exceeded while decoding a JSON array from a unicode string'')
      else Inl (JSONDecodeError ''Expecting value: line 1 column 2 (char 1)''))"

definition example_caps :: "(nat \<Rightarrow> nat \<Rightarrow> string \<Rightarrow> string + string) \<Rightarrow> string \<Rightarrow> caps" where
  "example_caps f response_content =
     \<lparr>ocr = f, llm_invoke = (\<lambda>p. Inr response_content),
      json_loads = example_json_loads, exc_str = example_exc_str\<rparr>"

section \<open>The retry loop, attempt by attempt\<close>

lemma rewind_id: "pos f = 0 \<Longrightarrow> f\<lparr>pos := 0\<rparr> = f"
  by (cases f) simp

lemma files_logged [simp]: "files (logged tr w) = files w"
  by (simp add: logged_def)

lemma trace_logged [simp]: "trace (logged tr w) = trace w @ tr"
  by (simp add: logged_def)

lemma logged_logged: "logged tr2 (logged tr1 w) = logged (tr1 @ tr2) w"
  by (simp add: logged_def)

lemma retry_step_success:
  assumes "idx < length (files w)" and "pos (files w ! idx) = 0"
    and "ocr cp idx attempt (data (files w ! idx)) = Inr t"
  shows "retry_loop cp idx (attempt # rest) acc w =
           (Inr (acc @ [image_entry idx t]),
            logged (success_events idx attempt (data (files w ! idx))) w)"
  using assms
  by (simp add: read_image_def seek_image_def emit_def Let_def rewind_id logged_def
      success_events_def)

lemma retry_step_transient:
  assumes "idx < length (files w)" and "pos (files w ! idx) = 0"
    and "ocr cp idx attempt (data (files w ! idx)) = Inl m"
    and "is_transient m" and "attempt < max_retries - 1"
  shows "retry_loop cp idx (attempt # rest) acc w =
           retry_loop cp idx rest acc (logged (retry_events idx attempt (data (files w ! idx))) w)"
  using assms
  by (simp add: read_image_def seek_image_def emit_def Let_def rewind_id logged_def
      retry_events_def)

lemma retry_step_fatal:
  assumes "idx < length (files w)" and "pos (files w ! idx) = 0"
    and "ocr cp idx attempt (data (files w ! idx)) = Inl m"
    and "\<not> (is_transient m \<and> attempt < max_retries - 1)"
  shows "retry_loop cp idx (attempt # rest) acc w =
           (Inl (extraction_error idx m),
            logged [EvRead idx, EvOcr idx attempt (data (files w ! idx))]
              (w\<lparr>files := (files w)[idx := (files w ! idx)\<lparr>pos := length (data (files w ! idx))\<rparr>]\<rparr>))"
  using assms by (auto simp add: read_image_def seek_image_def emit_def Let_def logged_def)

lemma range_max_retries: "[0..<max_retries] = [0, 1, 2]"
  by (simp add: max_retries_def upt_rec)

lemma retry_loop_success:
  assumes i: "idx < length (files w)" and p: "pos (files w ! idx) = 0"
    and s: "succeeds_at (ocr cp) idx (data (files w ! idx)) a t"
  shows "\<exists>tr. retry_loop cp idx [0..<max_retries] acc w =
           (Inr (acc @ [image_entry idx t]), logged tr w)"
proof -
  let ?b = "data (files w ! idx)"
  have budget: "(0::nat) < max_retries - 1" "(1::nat) < max_retries - 1"
    by (simp_all add: max_retries_def)
  have later: "idx < length (files (logged tr w))" "pos (files (logged tr w) ! idx) = 0" for tr
    using i p by simp_all
  from s have "a = 0 \<or> a = 1 \<or> a = 2"
    by (auto simp: succeeds_at_def max_retries_def)
  then show ?thesis
  proof (elim disjE)
    assume "a = 0"
    with s have "ocr cp idx 0 ?b = Inr t"
      by (simp add: succeeds_at_def)
    then show ?thesis
      unfolding range_max_retries using retry_step_success [OF i p] by blast
  next
    assume "a = 1"
    with s obtain m where m: "ocr cp idx 0 ?b = Inl m" "is_transient m"
      and t: "ocr cp idx 1 ?b = Inr t"
      by (auto simp: succeeds_at_def)
    from t have t': "ocr cp idx 1 (data (files (logged tr w) ! idx)) = Inr t" for tr
      by simp
    show ?thesis
      unfolding range_max_retries retry_step_transient [OF i p m budget(1)]
        retry_step_success [OF later t'] logged_logged
      by blast
  next
    assume "a = 2"
    with s have t: "ocr cp idx 2 ?b = Inr t"
      and f: "\<forall>a' < 2. \<exists>m. ocr cp idx a' ?b = Inl m \<and> is_transient m"
      by (simp_all add: succeeds_at_def)
    from f have "\<exists>m. ocr cp idx 0 ?b = Inl m \<and> is_transient m" by simp
    then obtain m0 where m0: "ocr cp idx 0 ?b = Inl m0" "is_transient m0" by blast
    from f have "\<exists>m. ocr cp idx 1 ?b = Inl m \<and> is_transient m" by simp
    then obtain m1 where m1: "ocr cp idx 1 ?b = Inl m1" "is_transient m1" by blast
    from m1 have m1': "ocr cp idx 1 (data (files (logged tr w) ! idx)) = Inl m1" for tr
      by simp
    from t have t': "ocr cp idx 2 (data (files (logged tr w) ! idx)) = Inr t" for tr
      by simp
    show ?thesis
      unfolding range_max_retries retry_step_transient [OF i p m0 budget(1)]
        retry_step_transient [OF later m1' m1(2) budget(2)] logged_logged
        retry_step_success [OF later t']
      by blast
  qed
qed

lemma image_loop_success:
  assumes "\<forall>i \<in> set idxs. i < length (files w) \<and> (\<exists>a. succeeds_at (ocr cp) i (data (files w ! i)) a (ts i))"
    and "\<forall>i < length (files w). pos (files w ! i) = 0"
  shows "\<exists>tr. image_loop cp idxs acc w =
           (Inr (acc @ map (\<lambda>i. image_entry i (ts i)) idxs), logged tr w)"
  using assms
proof (induction idxs arbitrary: acc w)
  case Nil
  have "logged [] w = w" by (simp add: logged_def)
  then show ?case by (metis image_loop.simps(1) append_Nil2 list.simps(8))
next
  case (Cons idx rest)
  from Cons.prems obtain a where i: "idx < length (files w)"
    and s: "succeeds_at (ocr cp) idx (data (files w ! idx)) a (ts idx)"
    by auto
  from Cons.prems i have p: "pos (files w ! idx) = 0" by simp
  from retry_loop_success [OF i p s] obtain tr1 where
    r: "retry_loop cp idx [0..<max_retries] acc w =
          (Inr (acc @ [image_entry idx (ts idx)]), logged tr1 w)"
    by blast
  let ?w1 = "logged tr1 w"
  have "\<forall>i \<in> set rest. i < length (files ?w1) \<and> (\<exists>a. succeeds_at (ocr cp) i (data (files ?w1 ! i)) a (ts i))"
    using Cons.prems(1) by simp
  moreover have "\<forall>i < length (files ?w1). pos (files ?w1 ! i) = 0"
    using Cons.prems(2) by simp
  ultimately obtain tr2 where
    "image_loop cp rest (acc @ [image_entry idx (ts idx)]) ?w1 =
       (Inr ((acc @ [image_entry idx (ts idx)]) @ map (\<lambda>i. image_entry i (ts i)) rest),
        logged tr2 ?w1)"
    using Cons.IH by blast
  with r show ?case by (auto simp: logged_logged)
qed

lemma extract_success:
  assumes "\<forall>i < length (files w). pos (files w ! i) = 0 \<and> (\<exists>a. succeeds_at (ocr cp) i (data (files w ! i)) a (ts i))"
  shows "\<exists>tr. extract_text_from_images cp w =
           (Inr (join nl (map (\<lambda>i. image_entry i (ts i)) [0..<length (files w)])), logged tr w)"
proof -
  from assms image_loop_success [of "[0..<length (files w)]" w cp ts "[]"]
  obtain tr where "image_loop cp [0..<length (files w)] [] w =
      (Inr (map (\<lambda>i. image_entry i (ts i)) [0..<length (files w)]), logged tr w)"
    by auto
  then show ?thesis by (auto simp: extract_text_from_images_def)
qed


text \<open>
  C1.  When every image of the batch is extracted within the retry budget, the extractor
  returns the texts in input order, each after its marker \<open>--- Image k ---\<close> with
  \<open>k\<close> counting from 1, each followed by a newline and joined by a newline, so that a blank
  line separates the entries.  The texts are arbitrary, and the empty batch gives the empty
  string: the extractor rejects no result for being empty.
\<close>

theorem extract_concatenates_in_order:
  assumes "\<forall>i < length (files w). pos (files w ! i) = 0 \<and>
             (\<exists>a. succeeds_at (ocr cp) i (data (files w ! i)) a (ts i))"
  shows "fst (extract_text_from_images cp w) =
           Inr (join nl (map (\<lambda>i. ''--- Image '' @ str_nat (i + 1) @ '' ---'' @ nl @ ts i @ nl)
                  [0..<length (files w)])) \<and>
         (files w = [] \<longrightarrow> fst (extract_text_from_images cp w) = Inr [])"
proof -
  from extract_success [OF assms] obtain tr where
    "extract_text_from_images cp w =
       (Inr (join nl (map (\<lambda>i. image_entry i (ts i)) [0..<length (files w)])), logged tr w)"
    by blast
  then have e: "fst (extract_text_from_images cp w) =
       Inr (join nl (map (\<lambda>i. ''--- Image '' @ str_nat (i + 1) @ '' ---'' @ nl @ ts i @ nl)
              [0..<length (files w)]))"
    by (simp add: image_entry_def)
  then show ?thesis by auto
qed

lemma flaky_succeeds:
  "\<forall>i < length (files example_world). pos (files example_world ! i) = 0 \<and>
     (\<exists>a. succeeds_at (ocr (example_caps flaky_ocr ''[]'')) i (data (files example_world ! i)) a
            (example_texts i))"
proof (intro allI impI)
  fix i assume "i < length (files example_world)"
  then have "i = 0 \<or> i = 1" by (auto simp: example_world_def)
  then show "pos (files example_world ! i) = 0 \<and>
     (\<exists>a. succeeds_at (ocr (example_caps flaky_ocr ''[]'')) i (data (files example_world ! i)) a
            (example_texts i))"
  proof
    assume i: "i = 0"
    have t: "is_transient ''Request Timeout''" "is_transient ''504 Deadline Exceeded''"
      by code_simp+
    have "a' < 2 \<Longrightarrow> a' = 0 \<or> a' = 1" for a' :: nat by auto
    with t have "succeeds_at (ocr (example_caps flaky_ocr ''[]'')) 0 (data (files example_world ! 0)) 2
            (example_texts 0)"
      by (auto simp add: succeeds_at_def example_caps_def flaky_ocr_def example_texts_def
          max_retries_def)
    with i show ?thesis by (auto simp: example_world_def)
  next
    assume i: "i = 1"
    have "succeeds_at (ocr (example_caps flaky_ocr ''[]'')) 1 (data (files example_world ! 1)) 0
            (example_texts 1)"
      by (simp add: succeeds_at_def example_caps_def flaky_ocr_def example_texts_def
          max_retries_def)
    with i show ?thesis by (auto simp: example_world_def)
  qed
qed

theorem extract_concatenates_in_order_witness:
  "fst (extract_text_from_images (example_caps flaky_ocr ''[]'') example_world) =
     Inr (''--- Image 1 ---'' @ nl @ ''alpha'' @ nl @ nl @ ''--- Image 2 ---'' @ nl @ ''beta'' @ nl)"
proof -
  have n: "[0..<length (files example_world)] = [0, 1]"
    by (simp add: example_world_def upt_rec)
  have s1: "str_nat (Suc 0) = ''1''" and s2: "str_nat (Suc (Suc 0)) = ''2''"
    by code_simp+
  from extract_concatenates_in_order [OF flaky_succeeds] show ?thesis
    unfolding n by (simp add: example_texts_def s1 s2)
qed

lemma steady_succeeds:
  "\<forall>i < length (files example_world).
     ocr (example_caps steady_ocr ''[]'') i 0 (data (files example_world ! i)) = Inr (example_texts i)"
  by (simp add: example_caps_def steady_ocr_def example_texts_def)

text \<open>
  C6.  Retries are transparent.  Take a batch whose images are all extracted within the
  retry budget by one capability, after transient failures, and at the first attempt with
  the same texts by another: both runs of the extractor return the same text, and leave the
  uploaded files in the same state.
\<close>

theorem retries_transparent:
  assumes "\<forall>i < length (files w). pos (files w ! i) = 0 \<and>
             (\<exists>a. succeeds_at (ocr cp) i (data (files w ! i)) a (ts i))"
    and "\<forall>i < length (files w). ocr cp' i 0 (data (files w ! i)) = Inr (ts i)"
  shows "\<exists>txt. fst (extract_text_from_images cp w) = Inr txt \<and>
               fst (extract_text_from_images cp' w) = Inr txt \<and>
               files (snd (extract_text_from_images cp w)) =
                 files (snd (extract_text_from_images cp' w))"
proof -
  have "succeeds_at (ocr cp') i (data (files w ! i)) 0 (ts i)" if "i < length (files w)" for i
    using that assms(2) by (simp add: succeeds_at_def max_retries_def)
  with assms(1) have
    "\<forall>i < length (files w). pos (files w ! i) = 0 \<and>
       (\<exists>a. succeeds_at (ocr cp') i (data (files w ! i)) a (ts i))"
    by blast
  from extract_success [OF assms(1)] extract_success [OF this] show ?thesis
    by (metis files_logged fst_conv snd_conv)
qed

theorem retries_transparent_witness:
  "fst (extract_text_from_images (example_caps flaky_ocr ''[]'') example_world) =
     fst (extract_text_from_images (example_caps steady_ocr ''[]'') example_world) \<and>
   files (snd (extract_text_from_images (example_caps flaky_ocr ''[]'') example_world)) =
     files (snd (extract_text_from_images (example_caps steady_ocr ''[]'') example_world))"
  using retries_transparent [OF flaky_succeeds steady_succeeds] by auto

lemma retry_loop_exhausted:
  assumes i: "idx < length (files w)" and p: "pos (files w ! idx) = 0"
    and m0: "ocr cp idx 0 (data (files w ! idx)) = Inl m0" "is_transient m0"
    and m1: "ocr cp idx 1 (data (files w ! idx)) = Inl m1" "is_transient m1"
    and m2: "ocr cp idx 2 (data (files w ! idx)) = Inl m2"
  shows "retry_loop cp idx [0..<max_retries] acc w =
           (Inl (extraction_error idx m2),
            logged (retry_events idx 0 (data (files w ! idx)) @
                    retry_events idx 1 (data (files w ! idx)) @
                    [EvRead idx, EvOcr idx 2 (data (files w ! idx))])
              (w\<lparr>files := (files w)[idx := (files w ! idx)\<lparr>pos := length (data (files w ! idx))\<rparr>]\<rparr>))"
proof -
  let ?b = "data (files w ! idx)"
  have budget: "(0::nat) < max_retries - 1" "(1::nat) < max_retries - 1"
    "\<not> (is_transient m2 \<and> (2::nat) < max_retries - 1)"
    by (simp_all add: max_retries_def)
  have later: "idx < length (files (logged tr w))" "pos (files (logged tr w) ! idx) = 0" for tr
    using i p by simp_all
  from m1 have m1': "ocr cp idx 1 (data (files (logged tr w) ! idx)) = Inl m1" for tr
    by simp
  from m2 have m2': "ocr cp idx 2 (data (files (logged tr w) ! idx)) = Inl m2" for tr
    by simp
  show ?thesis
    unfolding range_max_retries retry_step_transient [OF i p m0 budget(1)]
      retry_step_transient [OF later m1' m1(2) budget(2)] logged_logged
      retry_step_fatal [OF later m2' budget(3)]
    by (simp add: logged_def)
qed

lemma image_loop_aborts:
  assumes "retry_loop cp idx [0..<max_retries] acc w = (Inl e, w')"
  shows "image_loop cp (idx # rest) acc w = (Inl e, w')"
  using assms by simp

text \<open>
  C2.  The retry policy: a failure whose message contains \<open>timeout\<close> (in any case) or
  \<open>504\<close> is retried, after a pause of 2 seconds and with the file rewound, up to 3
  attempts in all; any other failure, and the failure of the third attempt, aborts the
  batch with an error that names the image, counted from 1, and the number of attempts.
  The number in the error is the constant 3: here the vision call of the first image fails
  at once with a message that is not transient, a single attempt is made, and the error
  reads \<open>after 3 attempts\<close>.
\<close>

theorem fatal_failure_reports_three_attempts:
  "extract_text_from_images (example_caps broken_ocr ''[]'') example_world =
     (Inl \<lparr>status_code = 500,
           detail = ''Error extracting text from image 1 after 3 attempts: API key not valid''\<rparr>,
      \<lparr>files = [\<lparr>content_type = ''image/png'', data = ''ab'', pos = 2\<rparr>,
                \<lparr>content_type = ''image/jpeg'', data = ''xy'', pos = 0\<rparr>],
        trace = [EvRead 0, EvOcr 0 0 ''ab'']\<rparr>)"
proof -
  have n: "[0..<length (files example_world)] = [0, 1]"
    by (simp add: example_world_def upt_rec)
  have t: "\<not> (is_transient ''API key not valid'' \<and> (0::nat) < max_retries - 1)"
    by code_simp
  have e: "extraction_error 0 ''API key not valid'' =
      \<lparr>status_code = 500,
       detail = ''Error extracting text from image 1 after 3 attempts: API key not valid''\<rparr>"
    by code_simp
  have "retry_loop (example_caps broken_ocr ''[]'') 0 [0, 1, 2] [] example_world =
      (Inl (extraction_error 0 ''API key not valid''),
       logged [EvRead 0, EvOcr 0 0 (data (files example_world ! 0))]
         (example_world\<lparr>files := (files example_world)
            [0 := (files example_world ! 0)\<lparr>pos := length (data (files example_world ! 0))\<rparr>]\<rparr>))"
    by (rule retry_step_fatal [OF _ _ _ t])
      (simp_all add: example_world_def example_caps_def broken_ocr_def)
  then show ?thesis
    unfolding extract_text_from_images_def n e
    by (simp add: range_max_retries logged_def example_world_def del: retry_loop.simps)
qed

section \<open>Cutting the array out of the model output\<close>


lemma find_idx_first: "c \<notin> set pre \<Longrightarrow> find_idx c (pre @ c # rest) = Some (length pre)"
  by (induction pre) auto

lemma rfind_idx_absent: "c \<notin> set s \<Longrightarrow> rfind_idx c s = None"
  by (induction s) auto

lemma rfind_idx_last: "c \<notin> set post \<Longrightarrow> rfind_idx c (xs @ c # post) = Some (length xs)"
  by (induction xs) (auto simp: rfind_idx_absent)

lemma slice_brackets:
  "slice (pre @ CHR ''['' # body @ CHR '']'' # post) (int (length pre))
     (int (length (pre @ CHR ''['' # body)) + 1) = CHR ''['' # body @ [CHR '']'']"
  by (simp add: slice_def nat_add_distrib)

lemma located:
  assumes "response_text = pre @ CHR ''['' # body @ CHR '']'' # post"
    and "CHR ''['' \<notin> set pre" and "CHR '']'' \<notin> set post"
  shows "find_str response_text (CHR ''['') \<noteq> - 1"
    and "rfind_str response_text (CHR '']'') + 1 \<noteq> 0"
    and "slice response_text (find_str response_text (CHR ''[''))
           (rfind_str response_text (CHR '']'') + 1) = CHR ''['' # body @ [CHR '']'']"
proof -
  have f: "find_str response_text (CHR ''['') = int (length pre)"
    using assms(1,2) by (simp add: find_str_def find_idx_first)
  have "response_text = (pre @ CHR ''['' # body) @ CHR '']'' # post"
    using assms(1) by simp
  then have "rfind_idx (CHR '']'') response_text = Some (length (pre @ CHR ''['' # body))"
    using assms(3) rfind_idx_last by metis
  then have r: "rfind_str response_text (CHR '']'') = int (length (pre @ CHR ''['' # body))"
    by (simp add: rfind_str_def)
  show "find_str response_text (CHR ''['') \<noteq> - 1" using f by simp
  show "rfind_str response_text (CHR '']'') + 1 \<noteq> 0" using r by simp
  show "slice response_text (find_str response_text (CHR ''[''))
           (rfind_str response_text (CHR '']'') + 1) = CHR ''['' # body @ [CHR '']'']"
    unfolding f r unfolding assms(1) by (rule slice_brackets)
qed



lemma generate_parse_error:
  assumes "llm_invoke cp (format_messages subject n d
             (case qts of None \<Rightarrow> default_question_types | Some ts \<Rightarrow> ts) content) = Inr raw"
    and "strip raw = pre @ CHR ''['' # body @ CHR '']'' # post"
    and "CHR ''['' \<notin> set pre" and "CHR '']'' \<notin> set post"
    and "json_loads cp (CHR ''['' # body @ [CHR '']'']) = Inl (JSONDecodeError msg)"
  shows "fst (generate_questions_from_content cp content subject n d qts w) =
           Inl (parse_error msg (strip raw))"
proof -
  have ne: "strip raw \<noteq> []" using assms(2) by simp
  show ?thesis
    unfolding generate_questions_from_content_def Let_def
    using assms(1,5) ne located [OF assms(2,3,4)]
    by simp
qed

lemma generate_coerce_error:
  assumes "llm_invoke cp (format_messages subject n d
             (case qts of None \<Rightarrow> default_question_types | Some ts \<Rightarrow> ts) content) = Inr raw"
    and "strip raw = pre @ CHR ''['' # body @ CHR '']'' # post"
    and "CHR ''['' \<notin> set pre" and "CHR '']'' \<notin> set post"
    and "json_loads cp (CHR ''['' # body @ [CHR '']'']) = Inr (JArray items)"
    and "mk_Questions items = Inl e"
  shows "fst (generate_questions_from_content cp content subject n d qts w) =
           Inl (generation_error (exc_str cp e))"
proof -
  have ne: "strip raw \<noteq> []" using assms(2) by simp
  show ?thesis
    unfolding generate_questions_from_content_def Let_def
    using assms(1,5,6) ne located [OF assms(2,3,4)]
    by (simp add: iterate_def)
qed

lemma generate_coerced:
  assumes "llm_invoke cp (format_messages subject n d
             (case qts of None \<Rightarrow> default_question_types | Some ts \<Rightarrow> ts) content) = Inr raw"
    and "strip raw = pre @ CHR ''['' # body @ CHR '']'' # post"
    and "CHR ''['' \<notin> set pre" and "CHR '']'' \<notin> set post"
    and "json_loads cp (CHR ''['' # body @ [CHR '']'']) = Inr (JArray items)"
    and "mk_Questions items = Inr qs"
  shows "fst (generate_questions_from_content cp content subject n d qts w) =
           Inr \<lparr>success = True, r_subject = subject, total_questions = int (length qs),
                questions = qs,
                extracted_text_preview =
                  Some (if length content > 500 then take 500 content @ ''...'' else content)\<rparr>"
proof -
  have ne: "strip raw \<noteq> []" using assms(2) by simp
  show ?thesis
    unfolding generate_questions_from_content_def Let_def
    using assms(1,5,6) ne located [OF assms(2,3,4)]
    by (simp add: iterate_def)
qed

lemma generate_Inr:
  assumes "generate_questions_from_content cp content subject n d qts w = (Inr r, w')"
  shows "success r \<and> r_subject r = subject \<and> total_questions r = int (length (questions r)) \<and>
         extracted_text_preview r =
           Some (if length content > 500 then take 500 content @ ''...'' else content)"
  using assms
  by (auto simp add: generate_questions_from_content_def Let_def
      split: sum.splits raised.splits if_splits)

lemma mk_Questions_Inr:
  "mk_Questions items = Inr qs \<Longrightarrow> list_all2 (\<lambda>j q. mk_Question j = Inr q) items qs"
  by (induction items arbitrary: qs) (auto split: sum.splits)

lemma mk_Questions_Inl:
  "j \<in> set items \<Longrightarrow> mk_Question j = Inl e \<Longrightarrow> \<exists>e'. mk_Questions items = Inl e'"
  by (induction items) (auto split: sum.splits)

lemma req_str_missing: "k \<notin> fst ` set kvs \<Longrightarrow> req_str k kvs = Inl (Missing k)"
proof -
  assume "k \<notin> fst ` set kvs"
  then have "map_of kvs k = None" by (simp add: map_of_eq_None_iff)
  then show ?thesis by (simp add: req_str_def)
qed

lemma mk_Question_missing:
  assumes "k \<in> set required_fields" and "k \<notin> fst ` set kvs"
  shows "\<exists>es. mk_Question (JObject kvs) = Inl (ValidationErr es) \<and> Missing k \<in> set es"
proof -
  from assms(1) have "k = ''question'' \<or> k = ''question_type'' \<or> k = ''difficulty'' \<or> k = ''subject''"
    by (simp add: required_fields_def)
  then show ?thesis
    using req_str_missing [OF assms(2)]
    by (elim disjE) (auto simp add: mk_Question_def errs_def split: sum.splits)
qed



lemma example_llm:
  "llm_invoke (example_caps f raw) p = Inr raw"
  by (simp add: example_caps_def)


lemma example_loads_single:
  "json_loads (example_caps f raw) (CHR ''['' # single_body @ [CHR '']'']) =
     Inr (JArray [single_object])"
  by (simp add: example_caps_def example_json_loads_def single_array_def single_body_def)

lemma single_object_ok:
  "mk_Question single_object =
     Inr \<lparr>question = ''Q'', question_type = ''short_answer'', options = None,
          correct_answer = Some ''A'', q_difficulty = ''easy'', q_subject = ''Math''\<rparr>"
  by (simp add: single_object_def mk_Question_def req_str_def opt_str_def opt_str_list_def)














section \<open>Coercion into questions\<close>

lemma generate_success_items:
  assumes "llm_invoke cp (format_messages subject n d
             (case qts of None \<Rightarrow> default_question_types | Some ts \<Rightarrow> ts) content) = Inr raw"
    and "strip raw = pre @ CHR ''['' # body @ CHR '']'' # post"
    and "CHR ''['' \<notin> set pre" and "CHR '']'' \<notin> set post"
    and "json_loads cp (CHR ''['' # body @ [CHR '']'']) = Inr (JArray items)"
    and "fst (generate_questions_from_content cp content subject n d qts w) = Inr r"
  shows "mk_Questions items = Inr (questions r)"
proof (cases "mk_Questions items")
  case (Inl e)
  from generate_coerce_error [OF assms(1-5) Inl] assms(6) show ?thesis by simp
next
  case (Inr qs)
  from generate_coerced [OF assms(1-5) Inr] assms(6) show ?thesis
    using Inr by auto
qed

text \<open>
  C5.  Coercion is all or nothing.  When one object of the parsed array lacks a field of
  \<^verbatim>\<open>Question\<close> that has no default, the whole call fails; and whenever the call returns
  a response, its questions are the coercions of all the items, one for one and in order.
\<close>

theorem coercion_all_or_nothing:
  assumes "llm_invoke cp (format_messages subject n d
             (case qts of None \<Rightarrow> default_question_types | Some ts \<Rightarrow> ts) content) = Inr raw"
    and "strip raw = pre @ CHR ''['' # body @ CHR '']'' # post"
    and "CHR ''['' \<notin> set pre" and "CHR '']'' \<notin> set post"
    and "json_loads cp (CHR ''['' # body @ [CHR '']'']) = Inr (JArray items)"
  shows "((\<exists>kvs k. JObject kvs \<in> set items \<and> k \<in> set required_fields \<and> k \<notin> fst ` set kvs) \<longrightarrow>
            (\<exists>e. fst (generate_questions_from_content cp content subject n d qts w) = Inl e \<and>
                 status_code e = 500)) \<and>
         (\<forall>r. fst (generate_questions_from_content cp content subject n d qts w) = Inr r \<longrightarrow>
            list_all2 (\<lambda>j q. mk_Question j = Inr q) items (questions r))"
proof (intro conjI impI allI)
  assume "\<exists>kvs k. JObject kvs \<in> set items \<and> k \<in> set required_fields \<and> k \<notin> fst ` set kvs"
  then obtain kvs k where m: "JObject kvs \<in> set items" "k \<in> set required_fields"
    "k \<notin> fst ` set kvs"
    by blast
  from mk_Question_missing [OF m(2,3)] mk_Questions_Inl [OF m(1)]
  obtain e where "mk_Questions items = Inl e" by blast
  from generate_coerce_error [OF assms this]
  show "\<exists>e. fst (generate_questions_from_content cp content subject n d qts w) = Inl e \<and>
            status_code e = 500"
    by (simp add: generation_error_def)
next
  fix r
  assume "fst (generate_questions_from_content cp content subject n d qts w) = Inr r"
  from generate_success_items [OF assms this]
  show "list_all2 (\<lambda>j q. mk_Question j = Inr q) items (questions r)"
    by (rule mk_Questions_Inr)
qed

lemma no_open: "CHR ''['' \<notin> set []" and no_close: "CHR '']'' \<notin> set []"
  by simp_all

lemma example_loads_partial:
  "json_loads (example_caps f raw) (CHR ''['' # partial_body @ [CHR '']'']) =
     Inr (JArray [single_object, partial_object])"
  by (simp add: example_caps_def example_json_loads_def single_array_def single_body_def
      partial_output_def partial_body_def)

theorem coercion_all_or_nothing_witness:
  "\<exists>e. fst (generate_questions_from_content (example_caps steady_ocr partial_output) ''text''
            ''Math'' 2 ''easy'' None example_world) = Inl e \<and> status_code e = 500"
proof -
  have "strip partial_output = partial_output" by code_simp
  then have l: "strip partial_output = [] @ CHR ''['' # partial_body @ CHR '']'' # []"
    by (simp add: partial_output_def)
  have m: "\<exists>kvs k. JObject kvs \<in> set [single_object, partial_object] \<and>
      k \<in> set required_fields \<and> k \<notin> fst ` set kvs"
    by (rule exI [of _ "[(''question'', JString ''R''), (''question_type'', JString ''true_false''),
              (''difficulty'', JString ''easy'')]"], rule exI [of _ "''subject''"])
      (simp add: partial_object_def required_fields_def)
  from coercion_all_or_nothing [where cp = "example_caps steady_ocr partial_output"
      and w = example_world, OF example_llm l no_open no_close example_loads_partial,
      THEN conjunct1, rule_format, OF m]
  show ?thesis .
qed



lemma str_items_Some: "str_items js = Some xs \<Longrightarrow> js = map JString xs"
  by (induction js arbitrary: xs rule: str_items.induct) auto

lemma opt_str_list_Inr:
  assumes "opt_str_list k kvs = Inr v"
  shows "case map_of kvs k of
           None \<Rightarrow> v = None
         | Some JNull \<Rightarrow> v = None
         | Some j \<Rightarrow> (\<exists>xs. j = JArray (map JString xs) \<and> v = Some xs)"
  using assms
  by (auto simp add: opt_str_list_def dest: str_items_Some str_items_Some [OF sym]
      split: option.splits json.splits)

lemma mk_Question_options:
  assumes "mk_Question j = Inr q"
  shows "\<exists>kvs. j = JObject kvs \<and>
           (case map_of kvs ''options'' of
              None \<Rightarrow> options q = None
            | Some JNull \<Rightarrow> options q = None
            | Some v \<Rightarrow> (\<exists>xs. v = JArray (map JString xs) \<and> options q = Some xs))"
proof -
  from assms obtain kvs where j: "j = JObject kvs"
    by (cases j) (simp_all add: mk_Question_def)
  from assms j have "opt_str_list ''options'' kvs = Inr (options q)"
    by (auto simp add: mk_Question_def split: sum.splits)
  from opt_str_list_Inr [OF this] j show ?thesis by blast
qed

lemma example_loads_optioned:
  "json_loads (example_caps f raw) (CHR ''['' # optioned_body @ [CHR '']'']) =
     Inr (JArray [optioned_object])"
  by (simp add: example_caps_def example_json_loads_def single_array_def single_body_def
      partial_output_def partial_body_def optioned_output_def optioned_body_def)

lemma optioned_object_ok:
  "mk_Questions [optioned_object] =
     Inr [\<lparr>question = ''Q'', question_type = ''short_answer'',
           options = Some [''A. yes'', ''B. no''], correct_answer = None,
           q_difficulty = ''easy'', q_subject = ''Math''\<rparr>]"
  by (simp add: optioned_object_def mk_Question_def req_str_def opt_str_def opt_str_list_def)

text \<open>
  C8, as claimed: the options of a question are absent unless its type is
  \<open>multiple_choice\<close>, and are four labelled strings when it is.  The schema declares
  \<open>options\<close> as an optional list of strings and nothing more: a short-answer question
  whose object carries two options is accepted with them.
\<close>

theorem options_on_short_answer_counterexample:
  "fst (generate_questions_from_content (example_caps steady_ocr optioned_output) ''text''
          ''Math'' 1 ''easy'' None example_world) =
     Inr \<lparr>success = True, r_subject = ''Math'', total_questions = 1,
          questions = [\<lparr>question = ''Q'', question_type = ''short_answer'',
                        options = Some [''A. yes'', ''B. no''], correct_answer = None,
                        q_difficulty = ''easy'', q_subject = ''Math''\<rparr>],
          extracted_text_preview = Some ''text''\<rparr>"
proof -
  have "strip optioned_output = optioned_output" by code_simp
  then have l: "strip optioned_output = [] @ CHR ''['' # optioned_body @ CHR '']'' # []"
    by (simp add: optioned_output_def)
  from generate_coerced [where cp = "example_caps steady_ocr optioned_output"
      and w = example_world and content = "''text''",
      OF example_llm l no_open no_close example_loads_optioned optioned_object_ok]
  show ?thesis by simp
qed

text \<open>
  C8, amended.  Every question of a response takes its options from its object as they
  are: none when the object has no key \<open>options\<close> or has \<^verbatim>\<open>null\<close> there, and otherwise
  the list of strings found there, whatever the question type and however many they are.
\<close>

theorem options_taken_as_given:
  assumes "llm_invoke cp (format_messages subject n d
             (case qts of None \<Rightarrow> default_question_types | Some ts \<Rightarrow> ts) content) = Inr raw"
    and "strip raw = pre @ CHR ''['' # body @ CHR '']'' # post"
    and "CHR ''['' \<notin> set pre" and "CHR '']'' \<notin> set post"
    and "json_loads cp (CHR ''['' # body @ [CHR '']'']) = Inr (JArray items)"
    and "fst (generate_questions_from_content cp content subject n d qts w) = Inr r"
  shows "list_all2
           (\<lambda>j q. \<exists>kvs. j = JObject kvs \<and>
              (case map_of kvs ''options'' of
                 None \<Rightarrow> options q = None
               | Some JNull \<Rightarrow> options q = None
               | Some v \<Rightarrow> (\<exists>xs. v = JArray (map JString xs) \<and> options q = Some xs)))
           items (questions r)"
proof -
  from generate_success_items [OF assms]
  have "list_all2 (\<lambda>j q. mk_Question j = Inr q) items (questions r)"
    by (rule mk_Questions_Inr)
  then show ?thesis
    by (rule list_all2_mono) (rule mk_Question_options)
qed

theorem options_taken_as_given_witness:
  "list_all2
     (\<lambda>j q. \<exists>kvs. j = JObject kvs \<and>
        (case map_of kvs ''options'' of
           None \<Rightarrow> options q = None
         | Some JNull \<Rightarrow> options q = None
         | Some v \<Rightarrow> (\<exists>xs. v = JArray (map JString xs) \<and> options q = Some xs)))
     [single_object]
     [\<lparr>question = ''Q'', question_type = ''short_answer'', options = None,
       correct_answer = Some ''A'', q_difficulty = ''easy'', q_subject = ''Math''\<rparr>]"
proof -
  have "strip single_output = single_output" by code_simp
  then have l: "strip single_output = ''noise'' @ CHR ''['' # single_body @ CHR '']'' # ''trailing''"
    by (simp add: single_output_def single_array_def)
  have o: "CHR ''['' \<notin> set ''noise''" and c: "CHR '']'' \<notin> set ''trailing''"
    by simp_all
  have q: "mk_Questions [single_object] =
      Inr [\<lparr>question = ''Q'', question_type = ''short_answer'', options = None,
            correct_answer = Some ''A'', q_difficulty = ''easy'', q_subject = ''Math''\<rparr>]"
    by (simp add: single_object_ok)
  let ?r = "\<lparr>success = True, r_subject = ''Math'', total_questions = 1,
             questions = [\<lparr>question = ''Q'', question_type = ''short_answer'', options = None,
               correct_answer = Some ''A'', q_difficulty = ''easy'', q_subject = ''Math''\<rparr>],
             extracted_text_preview = Some ''text''\<rparr>"
  from generate_coerced [where cp = "example_caps steady_ocr single_output"
      and w = example_world and content = "''text''" and subject = "''Math''" and n = 1
      and d = "''easy''" and qts = None,
      OF example_llm l o c example_loads_single q]
  have g: "fst (generate_questions_from_content (example_caps steady_ocr single_output) ''text''
      ''Math'' 1 ''easy'' None example_world) = Inr ?r"
    by simp
  from options_taken_as_given [OF example_llm l o c example_loads_single g]
  show ?thesis by simp
qed

section \<open>The assembled response\<close>

text \<open>
  C7.  A response of the pipeline counts its own questions, and previews the extracted
  text: the text itself when it has at most 500 characters, its first 500 characters
  followed by three dots when it is longer.
\<close>

theorem response_totals_and_preview:
  assumes "process_images_and_generate_questions cp subject n d qts w = (Inr r, w')"
  shows "total_questions r = int (length (questions r)) \<and>
         (\<exists>txt w1. extract_text_from_images cp w = (Inr txt, w1) \<and>
            extracted_text_preview r =
              Some (if length txt \<le> 500 then txt else take 500 txt @ ''...''))"
proof -
  from assms obtain extracted w1 where
    e: "extract_text_from_images cp w = (Inr extracted, w1)" and
    g: "generate_questions_from_content cp extracted subject n d qts w1 = (Inr r, w')"
    by (auto simp add: process_images_and_generate_questions_def
        split: if_splits option.splits prod.splits sum.splits)
  from generate_Inr [OF g] e show ?thesis by auto
qed

lemma strip_empty_iff: "strip s = [] \<longleftrightarrow> (\<forall>c \<in> set s. is_space c)"
proof -
  have "dropWhile is_space s = [] \<longleftrightarrow> (\<forall>c \<in> set s. is_space c)"
    by (simp add: dropWhile_eq_Nil_conv)
  moreover have "(\<forall>c \<in> set (dropWhile is_space s). is_space c) \<longleftrightarrow> dropWhile is_space s = []"
  proof
    assume a: "\<forall>c \<in> set (dropWhile is_space s). is_space c"
    show "dropWhile is_space s = []"
    proof (rule ccontr)
      assume n: "dropWhile is_space s \<noteq> []"
      then have "\<not> is_space (hd (dropWhile is_space s))" by (rule hd_dropWhile)
      with a n show False by simp
    qed
  next
    assume e: "dropWhile is_space s = []"
    show "\<forall>c \<in> set (dropWhile is_space s). is_space c"
      unfolding e by simp
  qed
  ultimately show ?thesis
    by (simp add: strip_def dropWhile_eq_Nil_conv)
qed

lemma process_valid:
  assumes "files w \<noteq> []" and "\<forall>f \<in> set (files w). content_type f \<in> set valid_image_types"
    and "extract_text_from_images cp w = (Inr extracted, w1)" and "strip extracted \<noteq> []"
  shows "process_images_and_generate_questions cp subject n d qts w =
           generate_questions_from_content cp extracted subject n d qts w1"
proof -
  have "List.find (\<lambda>img. content_type img \<notin> set valid_image_types) (files w) = None"
    using assms(2) by (simp add: find_None_iff)
  with assms(1,3,4) show ?thesis
    by (simp add: process_images_and_generate_questions_def)
qed

lemma route_valid:
  assumes "2 \<le> length (files w)"
    and "(case difficulty_field of None \<Rightarrow> ''medium'' | Some d \<Rightarrow> d) \<in> set valid_difficulties"
  shows "generate_questions cp subject num_questions_field difficulty_field None w =
           process_images_and_generate_questions cp subject
             (case num_questions_field of None \<Rightarrow> 10 | Some n \<Rightarrow> n)
             (case difficulty_field of None \<Rightarrow> ''medium'' | Some d \<Rightarrow> d)
             (Some [''multiple_choice'', ''short_answer'', ''true_false'']) w"
proof -
  have "map strip (split_str ''multiple_choice,short_answer,true_false'' (CHR '','')) =
      [''multiple_choice'', ''short_answer'', ''true_false'']"
    by code_simp
  with assms show ?thesis
    by (simp add: generate_questions_def valid_types_def)
qed

lemma num_questions_default:
  "generate_questions cp subject None difficulty_field question_types_field w =
     generate_questions cp subject (Some 10) difficulty_field question_types_field w"
  by (simp add: generate_questions_def)

lemma generate_calls_llm:
  "EvLlm (format_messages subject n d
            (case qts of None \<Rightarrow> default_question_types | Some ts \<Rightarrow> ts) content)
     \<in> set (trace (snd (generate_questions_from_content cp content subject n d qts w)))"
  by (simp add: generate_questions_from_content_def Let_def emit_def
      split: sum.splits raised.splits)

lemma steady_extract:
  "extract_text_from_images (example_caps steady_ocr raw) example_world =
     (Inr (''--- Image 1 ---'' @ nl @ ''alpha'' @ nl @ nl @ ''--- Image 2 ---'' @ nl @ ''beta'' @ nl),
      logged [EvRead 0, EvOcr 0 0 ''ab'', EvSeek 0 0, EvRead 1, EvOcr 1 0 ''xy'', EvSeek 1 0]
        example_world)"
proof -
  have n: "[0..<length (files example_world)] = [0, 1]"
    by (simp add: example_world_def upt_rec)
  have s1: "str_nat (Suc 0) = ''1''" and s2: "str_nat (Suc (Suc 0)) = ''2''"
    by code_simp+
  have r0: "retry_loop (example_caps steady_ocr raw) 0 [0..<max_retries] acc
        (logged tr example_world) =
      (Inr (acc @ [image_entry 0 ''alpha'']),
       logged (tr @ [EvRead 0, EvOcr 0 0 ''ab'', EvSeek 0 0]) example_world)" for acc tr
    unfolding range_max_retries
    by (subst retry_step_success [where t = "''alpha''"])
      (simp_all add: example_world_def example_caps_def steady_ocr_def logged_def
        success_events_def)
  have r1: "retry_loop (example_caps steady_ocr raw) (Suc 0) [0..<max_retries] acc
        (logged tr example_world) =
      (Inr (acc @ [image_entry (Suc 0) ''beta'']),
       logged (tr @ [EvRead (Suc 0), EvOcr (Suc 0) 0 ''xy'', EvSeek (Suc 0) 0]) example_world)"
    for acc tr
    unfolding range_max_retries
    by (subst retry_step_success [where t = "''beta''"])
      (simp_all add: example_world_def example_caps_def steady_ocr_def logged_def
        success_events_def)
  have w: "example_world = logged [] example_world"
    by (simp add: logged_def)
  have "image_loop (example_caps steady_ocr raw) [0, 1] [] (logged [] example_world) =
      (Inr [image_entry 0 ''alpha'', image_entry 1 ''beta''],
       logged [EvRead 0, EvOcr 0 0 ''ab'', EvSeek 0 0, EvRead 1, EvOcr 1 0 ''xy'', EvSeek 1 0]
         example_world)"
    by (simp add: r0 r1 del: retry_loop.simps)
  then show ?thesis
    unfolding extract_text_from_images_def n
    by (subst w) (simp add: image_entry_def s1 s2 del: image_loop.simps)
qed

lemma steady_pipeline:
  "process_images_and_generate_questions (example_caps steady_ocr ''[]'') ''Math'' n d qts
     example_world =
   generate_questions_from_content (example_caps steady_ocr ''[]'')
     (''--- Image 1 ---'' @ nl @ ''alpha'' @ nl @ nl @ ''--- Image 2 ---'' @ nl @ ''beta'' @ nl)
     ''Math'' n d qts
     (logged [EvRead 0, EvOcr 0 0 ''ab'', EvSeek 0 0, EvRead 1, EvOcr 1 0 ''xy'', EvSeek 1 0]
        example_world)"
proof (rule process_valid [OF _ _ steady_extract])
  show "files example_world \<noteq> []" by (simp add: example_world_def)
  show "\<forall>f \<in> set (files example_world). content_type f \<in> set valid_image_types"
    by (simp add: example_world_def valid_image_types_def)
  have "\<not> is_space (CHR ''-'')" by (simp add: is_space_def)
  then show "strip (''--- Image 1 ---'' @ nl @ ''alpha'' @ nl @ nl @ ''--- Image 2 ---'' @ nl
      @ ''beta'' @ nl) \<noteq> []"
    unfolding strip_empty_iff by auto
qed

lemma steady_generate:
  "fst (generate_questions_from_content (example_caps steady_ocr ''[]'') content ''Math'' n d qts w) =
     Inr \<lparr>success = True, r_subject = ''Math'', total_questions = 0, questions = [],
          extracted_text_preview =
            Some (if length content > 500 then take 500 content @ ''...'' else content)\<rparr>"
proof -
  have "strip ''[]'' = ''[]''" by code_simp
  then have l: "strip ''[]'' = [] @ CHR ''['' # [] @ CHR '']'' # []" by simp
  have j: "json_loads (example_caps steady_ocr ''[]'') (CHR ''['' # [] @ [CHR '']'']) =
      Inr (JArray [])"
    by (simp add: example_caps_def example_json_loads_def)
  have q: "mk_Questions [] = Inr []" by simp
  from generate_coerced [OF example_llm l no_open no_close j q]
  show ?thesis by simp
qed

theorem response_totals_and_preview_witness:
  "total_questions
     \<lparr>success = True, r_subject = ''Math'', total_questions = 0, questions = [],
      extracted_text_preview =
        Some (''--- Image 1 ---'' @ nl @ ''alpha'' @ nl @ nl @ ''--- Image 2 ---'' @ nl @ ''beta'' @ nl)\<rparr> =
     int (length (questions
       \<lparr>success = True, r_subject = ''Math'', total_questions = 0, questions = [],
        extracted_text_preview =
          Some (''--- Image 1 ---'' @ nl @ ''alpha'' @ nl @ nl @ ''--- Image 2 ---'' @ nl @ ''beta'' @ nl)\<rparr>)) \<and>
   (\<exists>extracted w1.
      extract_text_from_images (example_caps steady_ocr ''[]'') example_world = (Inr extracted, w1) \<and>
      extracted_text_preview
        \<lparr>success = True, r_subject = ''Math'', total_questions = 0, questions = [],
         extracted_text_preview =
           Some (''--- Image 1 ---'' @ nl @ ''alpha'' @ nl @ nl @ ''--- Image 2 ---'' @ nl @ ''beta'' @ nl)\<rparr> =
        Some (if length extracted \<le> 500 then extracted else take 500 extracted @ ''...''))"
proof -
  have "fst (process_images_and_generate_questions (example_caps steady_ocr ''[]'') ''Math'' 10
      ''medium'' None example_world) =
    Inr \<lparr>success = True, r_subject = ''Math'', total_questions = 0, questions = [],
      extracted_text_preview =
        Some (''--- Image 1 ---'' @ nl @ ''alpha'' @ nl @ nl @ ''--- Image 2 ---'' @ nl @ ''beta'' @ nl)\<rparr>"
    unfolding steady_pipeline steady_generate by (simp add: nl_def)
  then have "process_images_and_generate_questions (example_caps steady_ocr ''[]'') ''Math'' 10
      ''medium'' None example_world =
    (Inr \<lparr>success = True, r_subject = ''Math'', total_questions = 0, questions = [],
      extracted_text_preview =
        Some (''--- Image 1 ---'' @ nl @ ''alpha'' @ nl @ nl @ ''--- Image 2 ---'' @ nl @ ''beta'' @ nl)\<rparr>,
     snd (process_images_and_generate_questions (example_caps steady_ocr ''[]'') ''Math'' 10
      ''medium'' None example_world))"
    by (simp add: prod_eq_iff)
  from response_totals_and_preview [OF this] show ?thesis .
qed

section \<open>Validation before any capability is used\<close>

lemma process_invalid:
  assumes "length (files w) < 1 \<or>
           (\<exists>f \<in> set (files w). content_type f \<notin> set valid_image_types)"
  shows "\<exists>e. process_images_and_generate_questions cp subject n d qts w = (Inl e, w) \<and>
             status_code e = 400"
proof (cases "length (files w) < 1")
  case True
  then show ?thesis by (simp add: process_images_and_generate_questions_def)
next
  case False
  with assms have "List.find (\<lambda>img. content_type img \<notin> set valid_image_types) (files w) \<noteq> None"
    by (auto simp add: find_None_iff)
  with False show ?thesis
    by (auto simp add: process_images_and_generate_questions_def)
qed

lemma generate_world:
  assumes "llm_invoke cp (format_messages subject n d
             (case qts of None \<Rightarrow> default_question_types | Some ts \<Rightarrow> ts) content) = Inr raw"
  shows "snd (generate_questions_from_content cp content subject n d qts w) =
           logged [EvLlm (format_messages subject n d
                     (case qts of None \<Rightarrow> default_question_types | Some ts \<Rightarrow> ts) content),
                   EvPrint (''LLM Response: '' @ take 500 (strip raw) @ ''...'')] w"
  using assms
  by (simp add: generate_questions_from_content_def Let_def emit_def logged_def
      split: sum.splits raised.splits)

text \<open>
  C4, as claimed: the controller, like its route, rejects a wrong difficulty and a wrong
  question type before anything is read or called.  The controller checks the number of
  images and their types only: called with the difficulty \<open>impossible\<close> and the question
  type \<open>essay\<close> on two valid images, it reads both files, makes both vision calls, hands
  both values to the generation capability and returns a response.
\<close>

theorem controller_runs_unchecked_counterexample:
  "process_images_and_generate_questions (example_caps steady_ocr ''[]'') ''Math'' 10
     ''impossible'' (Some [''essay'']) example_world =
     (Inr \<lparr>success = True, r_subject = ''Math'', total_questions = 0, questions = [],
           extracted_text_preview =
             Some (''--- Image 1 ---'' @ nl @ ''alpha'' @ nl @ nl @ ''--- Image 2 ---'' @ nl
                     @ ''beta'' @ nl)\<rparr>,
      \<lparr>files = [\<lparr>content_type = ''image/png'', data = ''ab'', pos = 0\<rparr>,
                \<lparr>content_type = ''image/jpeg'', data = ''xy'', pos = 0\<rparr>],
        trace = [EvRead 0, EvOcr 0 0 ''ab'', EvSeek 0 0, EvRead 1, EvOcr 1 0 ''xy'', EvSeek 1 0,
                 EvLlm \<lparr>p_subject = ''Math'', p_num_questions = 10,
                        p_difficulty = ''impossible'', p_question_types = ''essay'',
                        p_content = ''--- Image 1 ---'' @ nl @ ''alpha'' @ nl @ nl
                          @ ''--- Image 2 ---'' @ nl @ ''beta'' @ nl\<rparr>,
                 EvPrint ''LLM Response: []...'']\<rparr>)"
proof -
  have s: "strip ''[]'' = ''[]''" by code_simp
  show ?thesis
    unfolding steady_pipeline
    by (rule prod_eqI)
      (simp_all add: steady_generate generate_world [OF example_llm] s logged_def
        example_world_def format_messages_def nl_def)
qed

text \<open>
  C4, amended.  Invalid input is rejected before anything is read or called.  Through the
  route: fewer than 2 images, an image whose declared type is not one of the four image
  types, a difficulty that is not easy, medium or hard, or a requested question type that is
  not one of the three known ones, gives an error with status 400 and leaves the world as it
  was: no file has been read, no vision call and no generation call has been made.  The
  controller, called directly, does the same for an empty batch and for a wrong image type.
\<close>

theorem invalid_input_rejected_first:
  "((length (files w) < 2 \<or>
     (\<exists>f \<in> set (files w).
        content_type f \<notin> {''image/jpeg'', ''image/jpg'', ''image/png'', ''image/webp''}) \<or>
     (\<exists>d. difficulty_field = Some d \<and> d \<notin> {''easy'', ''medium'', ''hard''}) \<or>
     (\<exists>s. question_types_field = Some s \<and> s \<noteq> [] \<and>
        (\<exists>qt \<in> set (map strip (split_str s (CHR '',''))).
           qt \<notin> {''multiple_choice'', ''short_answer'', ''true_false''}))) \<longrightarrow>
    (\<exists>e. generate_questions cp subject num_questions_field difficulty_field
            question_types_field w = (Inl e, w) \<and>
         status_code e = 400)) \<and>
   ((length (files w) < 1 \<or>
     (\<exists>f \<in> set (files w).
        content_type f \<notin> {''image/jpeg'', ''image/jpg'', ''image/png'', ''image/webp''})) \<longrightarrow>
    (\<exists>e. process_images_and_generate_questions cp subject n d qts w = (Inl e, w) \<and>
         status_code e = 400))"
proof (intro conjI impI)
  assume "length (files w) < 1 \<or>
     (\<exists>f \<in> set (files w).
        content_type f \<notin> {''image/jpeg'', ''image/jpg'', ''image/png'', ''image/webp''})"
  then show "\<exists>e. process_images_and_generate_questions cp subject n d qts w = (Inl e, w) \<and>
         status_code e = 400"
    by (intro process_invalid) (simp add: valid_image_types_def)
next
  assume bad: "length (files w) < 2 \<or>
     (\<exists>f \<in> set (files w).
        content_type f \<notin> {''image/jpeg'', ''image/jpg'', ''image/png'', ''image/webp''}) \<or>
     (\<exists>d. difficulty_field = Some d \<and> d \<notin> {''easy'', ''medium'', ''hard''}) \<or>
     (\<exists>s. question_types_field = Some s \<and> s \<noteq> [] \<and>
        (\<exists>qt \<in> set (map strip (split_str s (CHR '',''))).
           qt \<notin> {''multiple_choice'', ''short_answer'', ''true_false''}))"
  let ?difficulty = "case difficulty_field of None \<Rightarrow> ''medium'' | Some d \<Rightarrow> d"
  let ?question_types = "case question_types_field of
      None \<Rightarrow> ''multiple_choice,short_answer,true_false'' | Some s \<Rightarrow> s"
  let ?types_list = "if ?question_types \<noteq> []
      then Some (map strip (split_str ?question_types (CHR '',''))) else None"
  let ?bad_type = "case ?types_list of
      None \<Rightarrow> None | Some ts \<Rightarrow> List.find (\<lambda>qt. qt \<notin> set valid_types) ts"
  show "\<exists>e. generate_questions cp subject num_questions_field difficulty_field
            question_types_field w = (Inl e, w) \<and> status_code e = 400"
  proof (cases "length (files w) < 2")
    case True
    then show ?thesis by (simp add: generate_questions_def)
  next
    case enough: False
    show ?thesis
    proof (cases ?bad_type)
      case (Some qt)
      with enough show ?thesis by (simp add: generate_questions_def Let_def)
    next
      case types_ok: None
      show ?thesis
      proof (cases "?difficulty \<in> set valid_difficulties")
        case False
        with enough types_ok show ?thesis by (simp add: generate_questions_def Let_def)
      next
        case difficulty_ok: True
        from types_ok have "\<not> (\<exists>s. question_types_field = Some s \<and> s \<noteq> [] \<and>
            (\<exists>qt \<in> set (map strip (split_str s (CHR '',''))).
               qt \<notin> {''multiple_choice'', ''short_answer'', ''true_false''}))"
          by (auto simp add: find_None_iff valid_types_def split: if_splits)
        moreover from difficulty_ok have
          "\<not> (\<exists>d. difficulty_field = Some d \<and> d \<notin> {''easy'', ''medium'', ''hard''})"
          by (auto simp add: valid_difficulties_def)
        ultimately have "\<exists>f \<in> set (files w). content_type f \<notin> set valid_image_types"
          using bad enough unfolding valid_image_types_def by auto
        then have "\<exists>e. process_images_and_generate_questions cp subject
            (case num_questions_field of None \<Rightarrow> 10 | Some n \<Rightarrow> n) ?difficulty ?types_list w =
              (Inl e, w) \<and> status_code e = 400"
          by (intro process_invalid) simp
        with enough types_ok difficulty_ok show ?thesis
          by (simp add: generate_questions_def Let_def)
      qed
    qed
  qed
qed

theorem invalid_input_rejected_first_witness:
  "(\<exists>e. generate_questions (example_caps steady_ocr ''[]'') ''Math'' None (Some ''impossible'')
          None example_world = (Inl e, example_world) \<and> status_code e = 400) \<and>
   (\<exists>e. generate_questions (example_caps steady_ocr ''[]'') ''Math'' None None
          (Some ''multiple_choice,essay'') example_world = (Inl e, example_world) \<and>
        status_code e = 400) \<and>
   (\<exists>e. generate_questions (example_caps steady_ocr ''[]'') ''Math'' None None None
          (example_world\<lparr>files := take 1 (files example_world)\<rparr>) =
          (Inl e, example_world\<lparr>files := take 1 (files example_world)\<rparr>) \<and>
        status_code e = 400) \<and>
   (\<exists>e. generate_questions (example_caps steady_ocr ''[]'') ''Math'' None None None
          (example_world\<lparr>files := \<lparr>content_type = ''application/pdf'', data = ''pq'', pos = 0\<rparr>
             # files example_world\<rparr>) =
          (Inl e, example_world\<lparr>files := \<lparr>content_type = ''application/pdf'', data = ''pq'', pos = 0\<rparr>
             # files example_world\<rparr>) \<and>
        status_code e = 400) \<and>
   (\<exists>e. process_images_and_generate_questions (example_caps steady_ocr ''[]'') ''Math'' 10
          ''medium'' None (example_world\<lparr>files := []\<rparr>) =
          (Inl e, example_world\<lparr>files := []\<rparr>) \<and>
        status_code e = 400)"
proof (intro conjI)
  show "\<exists>e. generate_questions (example_caps steady_ocr ''[]'') ''Math'' None (Some ''impossible'')
          None example_world = (Inl e, example_world) \<and> status_code e = 400"
    by (rule invalid_input_rejected_first [THEN conjunct1, rule_format]) simp
  have "map strip (split_str ''multiple_choice,essay'' (CHR '','')) = [''multiple_choice'', ''essay'']"
    by code_simp
  then show "\<exists>e. generate_questions (example_caps steady_ocr ''[]'') ''Math'' None None
          (Some ''multiple_choice,essay'') example_world = (Inl e, example_world) \<and>
        status_code e = 400"
    by (intro invalid_input_rejected_first [THEN conjunct1, rule_format]) simp
  show "\<exists>e. generate_questions (example_caps steady_ocr ''[]'') ''Math'' None None None
          (example_world\<lparr>files := take 1 (files example_world)\<rparr>) =
          (Inl e, example_world\<lparr>files := take 1 (files example_world)\<rparr>) \<and>
        status_code e = 400"
    by (rule invalid_input_rejected_first [THEN conjunct1, rule_format])
      (simp add: example_world_def)
  show "\<exists>e. generate_questions (example_caps steady_ocr ''[]'') ''Math'' None None None
          (example_world\<lparr>files := \<lparr>content_type = ''application/pdf'', data = ''pq'', pos = 0\<rparr>
             # files example_world\<rparr>) =
          (Inl e, example_world\<lparr>files := \<lparr>content_type = ''application/pdf'', data = ''pq'', pos = 0\<rparr>
             # files example_world\<rparr>) \<and>
        status_code e = 400"
    by (rule invalid_input_rejected_first [THEN conjunct1, rule_format]) simp
  show "\<exists>e. process_images_and_generate_questions (example_caps steady_ocr ''[]'') ''Math'' 10
          ''medium'' None (example_world\<lparr>files := []\<rparr>) =
          (Inl e, example_world\<lparr>files := []\<rparr>) \<and>
        status_code e = 400"
    by (rule invalid_input_rejected_first [THEN conjunct2, rule_format]) simp
qed

text \<open>
  C9.  The number of questions is to lie between 1 and 50 and to default to 10.  The
  default is applied; the bounds are only written in the description of the form field and
  in a request schema that the route does not use.  Here the route is asked for 100
  questions, and for none, on two valid images: both requests run the extraction and reach
  the generation capability with that number.
\<close>

theorem num_questions_out_of_range_accepted:
  "fst (generate_questions (example_caps steady_ocr ''[]'') ''Math'' (Some 100) None None
          example_world) =
     Inr \<lparr>success = True, r_subject = ''Math'', total_questions = 0, questions = [],
          extracted_text_preview =
            Some (''--- Image 1 ---'' @ nl @ ''alpha'' @ nl @ nl @ ''--- Image 2 ---'' @ nl
                    @ ''beta'' @ nl)\<rparr> \<and>
   EvLlm \<lparr>p_subject = ''Math'', p_num_questions = 100, p_difficulty = ''medium'',
          p_question_types = ''multiple_choice, short_answer, true_false'',
          p_content = ''--- Image 1 ---'' @ nl @ ''alpha'' @ nl @ nl @ ''--- Image 2 ---'' @ nl
                    @ ''beta'' @ nl\<rparr>
     \<in> set (trace (snd (generate_questions (example_caps steady_ocr ''[]'') ''Math'' (Some 100)
                 None None example_world))) \<and>
   EvLlm \<lparr>p_subject = ''Math'', p_num_questions = 0, p_difficulty = ''medium'',
          p_question_types = ''multiple_choice, short_answer, true_false'',
          p_content = ''--- Image 1 ---'' @ nl @ ''alpha'' @ nl @ nl @ ''--- Image 2 ---'' @ nl
                    @ ''beta'' @ nl\<rparr>
     \<in> set (trace (snd (generate_questions (example_caps steady_ocr ''[]'') ''Math'' (Some 0)
                 None None example_world)))"
proof -
  let ?extracted = "''--- Image 1 ---'' @ nl @ ''alpha'' @ nl @ nl @ ''--- Image 2 ---'' @ nl
      @ ''beta'' @ nl"
  let ?w1 = "logged [EvRead 0, EvOcr 0 0 ''ab'', EvSeek 0 0, EvRead 1, EvOcr 1 0 ''xy'',
      EvSeek 1 0] example_world"
  have v: "2 \<le> length (files example_world)"
    by (simp add: example_world_def)
  have dv: "(case None of None \<Rightarrow> ''medium'' | Some d \<Rightarrow> d) \<in> set valid_difficulties"
    by (simp add: valid_difficulties_def)
  have route: "generate_questions (example_caps steady_ocr ''[]'') ''Math'' (Some k) None None
      example_world =
    generate_questions_from_content (example_caps steady_ocr ''[]'') ?extracted ''Math'' k
      ''medium'' (Some [''multiple_choice'', ''short_answer'', ''true_false'']) ?w1" for k
    by (simp only: route_valid [OF v dv] option.case steady_pipeline)
  have m: "format_messages ''Math'' k ''medium''
      (case Some [''multiple_choice'', ''short_answer'', ''true_false''] of
         None \<Rightarrow> default_question_types | Some ts \<Rightarrow> ts) ?extracted =
    \<lparr>p_subject = ''Math'', p_num_questions = k, p_difficulty = ''medium'',
     p_question_types = ''multiple_choice, short_answer, true_false'',
     p_content = ?extracted\<rparr>" for k
    by (simp add: format_messages_def nl_def)
  show ?thesis
    unfolding route steady_generate
    using generate_calls_llm [of "''Math''" 100 "''medium''"
        "Some [''multiple_choice'', ''short_answer'', ''true_false'']" ?extracted
        "example_caps steady_ocr ''[]''" ?w1]
      generate_calls_llm [of "''Math''" 0 "''medium''"
        "Some [''multiple_choice'', ''short_answer'', ''true_false'']" ?extracted
        "example_caps steady_ocr ''[]''" ?w1]
    unfolding m by (simp add: nl_def)
qed

end
